theory Spec2Isabelle
  imports Main "HOL-Library.Word"
begin

section \<open>The file system and the calls the program makes on it\<close>

text \<open>
  The program of \<^verbatim>\<open>main.go\<close> works on files named by paths. A file system maps a
  path to a node: a regular file with its bytes, or a node that can be opened but
  whose reads fail (a directory is one; the number is the size \<^verbatim>\<open>Stat\<close> reports for it).
  \<open>nocreate\<close> holds of the paths at which \<^verbatim>\<open>os.Create\<close> and \<^verbatim>\<open>os.WriteFile\<close> fail
  (missing parent directory, no permission). \<open>log\<close> records, in order, every call the
  program makes to the operating system and to the storage SDK.
  Paths are compared as strings: two different strings name two different files.
\<close>

type_synonym byte = "8 word"
type_synonym path = string

datatype node = Regular "byte list" | Unreadable nat

datatype event =
    EvOpen path
  | EvCreate path
  | EvRead path nat
  | EvWriteFile path nat
  | EvCopy path path nat
  | EvMkdirAll path
  | EvRemoveAll path
  | EvNewWeb3
  | EvNewClient
  | EvSelectNodes string bool
  | EvNewUploader
  | EvUploadFile path
  | EvNewDownloader
  | EvDownload string path

record world =
  files :: "path \<Rightarrow> node option"
  nocreate :: "path \<Rightarrow> bool"
  log :: "event list"

text \<open>
  Go's \<^verbatim>\<open>error\<close> values. \<open>EOF\<close> is \<^verbatim>\<open>io.EOF\<close>; \<open>CannotOpen\<close> and \<open>CopyFailed\<close> are the
  two errors \<^verbatim>\<open>mergeFiles\<close> builds with \<^verbatim>\<open>fmt.Errorf\<close>; \<open>MakeslicePanic\<close> is the
  run-time panic of \<^verbatim>\<open>make([]byte, n)\<close> with a negative \<^verbatim>\<open>n\<close>, \<open>IndexPanic\<close> that of
  an index out of range.
\<close>

datatype error =
    EOF
  | OpenError path
  | CreateError path
  | ReadError path
  | WriteError path
  | CannotOpen path error
  | CopyFailed path error
  | RemoteError string
  | MakeslicePanic
  | IndexPanic

text \<open>An open \<^verbatim>\<open>*os.File\<close>: the path it was opened at and its read offset.\<close>

record os_file =
  f_path :: path
  f_off :: nat

definition emit :: "event \<Rightarrow> world \<Rightarrow> world" where
  "emit e w = w\<lparr>log := log w @ [e]\<rparr>"

definition os_Open :: "world \<Rightarrow> path \<Rightarrow> (error + os_file) \<times> world" where
  "os_Open w p =
     (case files w p of
        None \<Rightarrow> (Inl (OpenError p), emit (EvOpen p) w)
      | Some _ \<Rightarrow> (Inr \<lparr>f_path = p, f_off = 0\<rparr>, emit (EvOpen p) w))"

text \<open>
  \<^verbatim>\<open>os.Create\<close> and \<^verbatim>\<open>os.WriteFile\<close> succeed at a path that is not barred and does not
  hold an unreadable node (a directory).
\<close>

definition creatable :: "world \<Rightarrow> path \<Rightarrow> bool" where
  "creatable w p =
     (\<not> nocreate w p \<and> (case files w p of Some (Unreadable _) \<Rightarrow> False | _ \<Rightarrow> True))"

definition os_Create :: "world \<Rightarrow> path \<Rightarrow> (error + os_file) \<times> world" where
  "os_Create w p =
     (if creatable w p
      then (Inr \<lparr>f_path = p, f_off = 0\<rparr>,
            emit (EvCreate p) (w\<lparr>files := (files w)(p \<mapsto> Regular [])\<rparr>))
      else (Inl (CreateError p), emit (EvCreate p) w))"

definition os_WriteFile :: "world \<Rightarrow> path \<Rightarrow> byte list \<Rightarrow> error option \<times> world" where
  "os_WriteFile w p bs =
     (if creatable w p
      then (None, emit (EvWriteFile p (length bs)) (w\<lparr>files := (files w)(p \<mapsto> Regular bs)\<rparr>))
      else (Some (CreateError p), emit (EvWriteFile p 0) w))"

text \<open>
  \<^verbatim>\<open>(*os.File).Read\<close> into a buffer of \<open>n\<close> bytes, on the file as it is now: a buffer of
  length 0 reads nothing and reports no error, whatever the file; at or past the end the
  read reports \<^verbatim>\<open>io.EOF\<close>; otherwise it returns the next \<open>min n remaining\<close> bytes (a
  regular file gives no short read before its end) and advances the offset. A read of a
  node that is not a regular file fails.
\<close>

definition file_Read :: "world \<Rightarrow> os_file \<Rightarrow> nat \<Rightarrow> (byte list \<times> error option) \<times> os_file \<times> world" where
  "file_Read w f n =
     (if n = 0 then (([], None), f, emit (EvRead (f_path f) 0) w)
      else (case files w (f_path f) of
              Some (Regular bs) \<Rightarrow>
                (if length bs \<le> f_off f then (([], Some EOF), f, emit (EvRead (f_path f) 0) w)
                 else let data = take n (drop (f_off f) bs)
                      in ((data, None), f\<lparr>f_off := f_off f + length data\<rparr>,
                          emit (EvRead (f_path f) (length data)) w))
            | _ \<Rightarrow> (([], Some (ReadError (f_path f))), f, emit (EvRead (f_path f) 0) w)))"

text \<open>\<^verbatim>\<open>(*os.File).Stat().Size()\<close>.\<close>

definition file_Size :: "world \<Rightarrow> os_file \<Rightarrow> nat" where
  "file_Size w f =
     (case files w (f_path f) of
        Some (Regular bs) \<Rightarrow> length bs
      | Some (Unreadable n) \<Rightarrow> n
      | None \<Rightarrow> 0)"

section \<open>Path names\<close>

text \<open>
  \<^verbatim>\<open>fmt.Sprintf("%d", i)\<close> for a counter that starts at 0 and only grows, and
  \<^verbatim>\<open>filepath.Join(dir, name)\<close> for a directory name that is already clean (no
  trailing separator, as \<^verbatim>\<open>"temp_data"\<close>) and a plain file name.
\<close>

definition digit :: "nat \<Rightarrow> char" where
  "digit d = char_of (48 + d)"

fun itoa :: "nat \<Rightarrow> string" where
  "itoa n = (if n < 10 then [digit n] else itoa (n div 10) @ [digit (n mod 10)])"

declare itoa.simps [simp del]

definition filepath_Join :: "path \<Rightarrow> string \<Rightarrow> path" where
  "filepath_Join dir name = (if dir = [] then name else dir @ ''/'' @ name)"

section \<open>splitFile\<close>

text \<open>
  \<^verbatim>\<open>splitFile(srcPath, chunkSize, outDir)\<close>, lines 248 to 279. The loop reads the
  source through one buffer of \<open>chunkSize\<close> bytes; every read that returns bytes is
  written to \<^verbatim>\<open>part_<i>.bin\<close> in \<open>outDir\<close> and its path appended to the result.
  \<open>chunkName\<close> is line 271.
\<close>

definition chunkName :: "path \<Rightarrow> nat \<Rightarrow> path" where
  "chunkName outDir i = filepath_Join outDir (''part_'' @ itoa i @ ''.bin'')"

text \<open>What is left to read of an open file.\<close>

definition remaining :: "world \<Rightarrow> os_file \<Rightarrow> nat" where
  "remaining w f =
     (case files w (f_path f) of Some (Regular bs) \<Rightarrow> length bs - f_off f | _ \<Rightarrow> 0)"

function splitFile_loop ::
  "world \<Rightarrow> os_file \<Rightarrow> nat \<Rightarrow> path \<Rightarrow> nat \<Rightarrow> path list \<Rightarrow> (error + path list) \<times> world" where
  "splitFile_loop w src n outDir i chunkPaths =
     (case file_Read w src n of
        ((buffer, Some err), src', w1) \<Rightarrow>
          (if err = EOF then (Inr chunkPaths, w1) else (Inl err, w1))
      | ((buffer, None), src', w1) \<Rightarrow>
          (if length buffer = 0 then (Inr chunkPaths, w1)
           else (case os_WriteFile w1 (chunkName outDir i) buffer of
                   (Some err, w2) \<Rightarrow> (Inl err, w2)
                 | (None, w2) \<Rightarrow>
                     splitFile_loop w2 src' n outDir (Suc i)
                       (chunkPaths @ [chunkName outDir i]))))"
  by pat_completeness auto

termination splitFile_loop
  apply (relation "measure (\<lambda>(w, src, n, outDir, i, chunkPaths). remaining w src)")
   apply simp
  apply (simp add: file_Read_def os_WriteFile_def remaining_def emit_def Let_def
        split: option.splits node.splits if_splits)
  apply (clarsimp simp: min_def)
  apply linarith
  done

declare splitFile_loop.simps [simp del]

text \<open>
  \<open>chunkSize\<close> is an \<^verbatim>\<open>int64\<close>; it is used only as the length of the buffer, and
  \<^verbatim>\<open>make\<close> panics when it is negative. The deferred \<^verbatim>\<open>file.Close()\<close> changes no file.
\<close>

definition splitFile :: "world \<Rightarrow> path \<Rightarrow> int \<Rightarrow> path \<Rightarrow> (error + path list) \<times> world" where
  "splitFile w srcPath chunkSize outDir =
     (case os_Open w srcPath of
        (Inl err, w1) \<Rightarrow> (Inl err, w1)
      | (Inr src, w1) \<Rightarrow>
          (if chunkSize < 0 then (Inl MakeslicePanic, w1)
           else splitFile_loop w1 src (nat chunkSize) outDir 0 []))"

section \<open>filesEqual\<close>

text \<open>
  \<^verbatim>\<open>filesEqual(file1, file2)\<close>, lines 282 to 328. Both files are opened, their sizes
  compared, and then read in step through two buffers of 32 KiB. The errors of the two
  \<^verbatim>\<open>Stat\<close> calls are dropped by the source; the model takes \<^verbatim>\<open>Stat\<close> on an open file to
  succeed. The inner \<^verbatim>\<open>for\<close> of lines 322 to 326 compares the bytes just read.
\<close>

function filesEqual_loop :: "world \<Rightarrow> os_file \<Rightarrow> os_file \<Rightarrow> bool \<times> world" where
  "filesEqual_loop w f1 f2 =
     (case file_Read w f1 32768 of
        ((buf1, err1), f1', w1) \<Rightarrow>
          (case file_Read w1 f2 32768 of
             ((buf2, err2), f2', w2) \<Rightarrow>
               (if err1 = Some EOF \<and> err2 = Some EOF then (True, w2)
                else if err1 \<noteq> None \<or> err2 \<noteq> None then (False, w2)
                else if length buf1 \<noteq> length buf2 then (False, w2)
                else if list_ex (\<lambda>i. buf1 ! i \<noteq> buf2 ! i) [0..<length buf1] then (False, w2)
                else filesEqual_loop w2 f1' f2')))"
  by pat_completeness auto

termination filesEqual_loop
  apply (relation "measure (\<lambda>(w, f1, f2). remaining w f1)")
   apply simp
  apply (simp add: file_Read_def remaining_def emit_def Let_def
        split: option.splits node.splits if_splits)
  done

declare filesEqual_loop.simps [simp del]

definition filesEqual :: "world \<Rightarrow> path \<Rightarrow> path \<Rightarrow> bool \<times> world" where
  "filesEqual w file1 file2 =
     (case os_Open w file1 of
        (Inl err, w1) \<Rightarrow> (False, w1)
      | (Inr f1, w1) \<Rightarrow>
          (case os_Open w1 file2 of
             (Inl err, w2) \<Rightarrow> (False, w2)
           | (Inr f2, w2) \<Rightarrow>
               (if file_Size w2 f1 \<noteq> file_Size w2 f2 then (False, w2)
                else filesEqual_loop w2 f1 f2)))"

section \<open>mergeFiles\<close>

text \<open>
  \<^verbatim>\<open>io.Copy(dst, src)\<close> appends what is left of \<open>src\<close> to \<open>dst\<close> and returns the number
  of bytes written. \<open>dst\<close> is written only by these copies, so its write offset is
  always its end. A copy of a file onto itself never reaches the end of its source
  while bytes remain: the real call ends only when the device is full and the write
  fails, and the model gives that error at once, leaving the file as it was.
\<close>

definition io_Copy :: "world \<Rightarrow> os_file \<Rightarrow> os_file \<Rightarrow> (error + nat) \<times> world" where
  "io_Copy w dst src =
     (case files w (f_path src) of
        Some (Regular bs) \<Rightarrow>
          (let data = drop (f_off src) bs
           in (case files w (f_path dst) of
                 Some (Regular out) \<Rightarrow>
                   (if f_path src = f_path dst \<and> data \<noteq> []
                    then (Inl (WriteError (f_path dst)),
                          emit (EvCopy (f_path dst) (f_path src) 0) w)
                    else (Inr (length data),
                          emit (EvCopy (f_path dst) (f_path src) (length data))
                            (w\<lparr>files := (files w)(f_path dst \<mapsto> Regular (out @ data))\<rparr>)))
               | _ \<Rightarrow> (Inl (WriteError (f_path dst)),
                       emit (EvCopy (f_path dst) (f_path src) 0) w)))
      | _ \<Rightarrow> (Inl (ReadError (f_path src)), emit (EvCopy (f_path dst) (f_path src) 0) w))"

text \<open>
  \<^verbatim>\<open>mergeFiles(filePaths, outputPath)\<close>, lines 331 to 355: the loop of lines 338 to 352,
  then the function. The deferred \<^verbatim>\<open>outFile.Close()\<close> changes no file.
\<close>

fun mergeFiles_loop :: "world \<Rightarrow> os_file \<Rightarrow> path list \<Rightarrow> error option \<times> world" where
  "mergeFiles_loop w outFile [] = (None, w)"
| "mergeFiles_loop w outFile (filePath # rest) =
     (case os_Open w filePath of
        (Inl err, w1) \<Rightarrow> (Some (CannotOpen filePath err), w1)
      | (Inr inFile, w1) \<Rightarrow>
          (case io_Copy w1 outFile inFile of
             (Inl err, w2) \<Rightarrow> (Some (CopyFailed filePath err), w2)
           | (Inr written, w2) \<Rightarrow> mergeFiles_loop w2 outFile rest))"

definition mergeFiles :: "world \<Rightarrow> path list \<Rightarrow> path \<Rightarrow> error option \<times> world" where
  "mergeFiles w filePaths outputPath =
     (case os_Create w outputPath of
        (Inl err, w1) \<Rightarrow> (Some err, w1)
      | (Inr outFile, w1) \<Rightarrow> mergeFiles_loop w1 outFile filePaths)"

section \<open>generateRandomFile\<close>

text \<open>
  \<^verbatim>\<open>generateRandomFile(path, size)\<close>, lines 235 to 245. \<open>rnd\<close> is the stream of
  \<^verbatim>\<open>rand.Reader\<close>; \<^verbatim>\<open>io.CopyN\<close> writes its first \<open>size\<close> bytes (none when \<open>size\<close> is zero
  or negative, and then without an error).
\<close>

definition io_CopyN :: "world \<Rightarrow> os_file \<Rightarrow> (nat \<Rightarrow> byte) \<Rightarrow> int \<Rightarrow> error option \<times> world" where
  "io_CopyN w dst rnd n =
     (let data = map rnd [0..<nat n]
      in (case files w (f_path dst) of
            Some (Regular out) \<Rightarrow>
              (None, emit (EvCopy (f_path dst) ''rand.Reader'' (length data))
                       (w\<lparr>files := (files w)(f_path dst \<mapsto> Regular (out @ data))\<rparr>))
          | _ \<Rightarrow> (Some (WriteError (f_path dst)),
                  emit (EvCopy (f_path dst) ''rand.Reader'' 0) w)))"

definition generateRandomFile ::
  "(nat \<Rightarrow> byte) \<Rightarrow> world \<Rightarrow> path \<Rightarrow> int \<Rightarrow> error option \<times> world" where
  "generateRandomFile rnd w path sz =
     (case os_Create w path of
        (Inl err, w1) \<Rightarrow> (Some err, w1)
      | (Inr f, w1) \<Rightarrow> io_CopyN w1 f rnd sz)"

section \<open>The storage SDK and the run\<close>

text \<open>
  The SDK is outside the repository: each of its calls is a parameter of the run,
  given by what the call returns. A call made once per fragment takes the index of the
  iteration as well, since the network may answer each call differently.
  \<open>TotalSize\<close> and \<open>FragmentSize\<close> are the constants of lines 32 and 33, as parameters.
\<close>

record selectedNodes =
  Trusted :: "string list"
  Discovered :: "string list"

record sdk =
  rand_Reader :: "nat \<Rightarrow> byte"
  blockchain_MustNewWeb3 :: bool
  indexer_NewClient :: "error option"
  indexer_SelectNodes :: "string \<Rightarrow> bool \<Rightarrow> error + selectedNodes"
  transfer_NewUploader :: "nat \<Rightarrow> error option"
  uploader_UploadFile :: "nat \<Rightarrow> path \<Rightarrow> error + (string \<times> string)"
  transfer_NewDownloader :: "string list \<Rightarrow> error option"
  downloader_Download :: "nat \<Rightarrow> string \<Rightarrow> error + byte list"

record config =
  TotalSize :: int
  FragmentSize :: int

text \<open>
  How \<^verbatim>\<open>main\<close> ends: by returning, and then its deferred calls run; by \<^verbatim>\<open>log.Fatal\<close>
  or \<^verbatim>\<open>log.Fatalf\<close>, which print and call \<^verbatim>\<open>os.Exit(1)\<close>, and then no deferred call
  runs; or by a panic, which runs the deferred calls before the program stops.
\<close>

datatype outcome = Returned | Fatal | Panicked

definition os_MkdirAll :: "world \<Rightarrow> path \<Rightarrow> world" where
  "os_MkdirAll w dir = emit (EvMkdirAll dir) w"

text \<open>\<^verbatim>\<open>os.RemoveAll(dir)\<close> removes \<open>dir\<close> and every path below it.\<close>

definition below :: "path \<Rightarrow> path \<Rightarrow> bool" where
  "below dir p = (p = dir \<or> take (Suc (length dir)) p = dir @ ''/'')"

definition os_RemoveAll :: "world \<Rightarrow> path \<Rightarrow> world" where
  "os_RemoveAll w dir =
     emit (EvRemoveAll dir) (w\<lparr>files := (\<lambda>p. if below dir p then None else files w p)\<rparr>)"

definition SelectNodes :: "sdk \<Rightarrow> world \<Rightarrow> string \<Rightarrow> bool \<Rightarrow> (error + selectedNodes) \<times> world" where
  "SelectNodes s w method fullTrusted =
     (indexer_SelectNodes s method fullTrusted, emit (EvSelectNodes method fullTrusted) w)"

text \<open>Lines 116 to 140: the four calls of \<^verbatim>\<open>SelectNodes\<close>, each made when the one before failed.\<close>

definition select_stage :: "sdk \<Rightarrow> world \<Rightarrow> (error + selectedNodes) \<times> world" where
  "select_stage s w =
     (case SelectNodes s w [] True of
        (Inr nodes, w1) \<Rightarrow> (Inr nodes, w1)
      | (Inl err, w1) \<Rightarrow>
          (case SelectNodes s w1 [] False of
             (Inr nodes, w2) \<Rightarrow> (Inr nodes, w2)
           | (Inl err, w2) \<Rightarrow>
               (case SelectNodes s w2 ''random'' True of
                  (Inr nodes, w3) \<Rightarrow> (Inr nodes, w3)
                | (Inl err, w3) \<Rightarrow>
                    (case SelectNodes s w3 ''random'' False of
                       (Inr nodes, w4) \<Rightarrow> (Inr nodes, w4)
                     | (Inl err, w4) \<Rightarrow> (Inl err, w4)))))"

text \<open>
  Lines 150 to 174: the upload loop over \<open>fragments\<close>, at index \<open>i\<close>, with the list
  \<open>rootHashes\<close> built so far. Both failures \<^verbatim>\<open>continue\<close>.
\<close>

fun upload_loop :: "sdk \<Rightarrow> world \<Rightarrow> nat \<Rightarrow> path list \<Rightarrow> string list \<Rightarrow> string list \<times> world" where
  "upload_loop s w i [] rootHashes = (rootHashes, w)"
| "upload_loop s w i (fragPath # rest) rootHashes =
     (case transfer_NewUploader s i of
        Some err \<Rightarrow> upload_loop s (emit EvNewUploader w) (Suc i) rest rootHashes
      | None \<Rightarrow>
          (case uploader_UploadFile s i fragPath of
             Inl err \<Rightarrow>
               upload_loop s (emit (EvUploadFile fragPath) (emit EvNewUploader w)) (Suc i) rest
                 rootHashes
           | Inr (txHash, rootHash) \<Rightarrow>
               upload_loop s (emit (EvUploadFile fragPath) (emit EvNewUploader w)) (Suc i) rest
                 (rootHashes @ [rootHash])))"

text \<open>
  \<^verbatim>\<open>downloader.Download(ctx, root, downloadPath, true)\<close>: on success the bytes are in a
  regular file at \<open>downloadPath\<close>; on failure the model leaves the files as they were.
\<close>

definition Download :: "sdk \<Rightarrow> world \<Rightarrow> nat \<Rightarrow> string \<Rightarrow> path \<Rightarrow> error option \<times> world" where
  "Download s w i root downloadPath =
     (case downloader_Download s i root of
        Inl err \<Rightarrow> (Some err, emit (EvDownload root downloadPath) w)
      | Inr bs \<Rightarrow>
          (None, emit (EvDownload root downloadPath)
                   (w\<lparr>files := (files w)(downloadPath \<mapsto> Regular bs)\<rparr>)))"

text \<open>
  Lines 188 to 209: the download loop over \<open>rootHashes\<close>. Line 203 indexes
  \<open>fragments\<close> with the index of the root hash, which panics when out of range.
  The verdict of \<open>filesEqual\<close> is only printed.
\<close>

fun download_loop ::
  "sdk \<Rightarrow> world \<Rightarrow> path \<Rightarrow> path list \<Rightarrow> nat \<Rightarrow> string list \<Rightarrow> path list \<Rightarrow>
   (error + path list) \<times> world" where
  "download_loop s w workDir fragments i [] downloadedFiles = (Inr downloadedFiles, w)"
| "download_loop s w workDir fragments i (root # rest) downloadedFiles =
     (let downloadPath = filepath_Join workDir (''downloaded_part_'' @ itoa i @ ''.bin'')
      in (case Download s w i root downloadPath of
            (Some err, w1) \<Rightarrow> download_loop s w1 workDir fragments (Suc i) rest downloadedFiles
          | (None, w1) \<Rightarrow>
              (if length fragments \<le> i then (Inl IndexPanic, w1)
               else (case filesEqual w1 (fragments ! i) downloadPath of
                       (ok, w2) \<Rightarrow>
                         download_loop s w2 workDir fragments (Suc i) rest
                           (downloadedFiles @ [downloadPath])))))"

text \<open>Lines 214 to 229: the merge, made only when something was downloaded.\<close>

definition merge_stage :: "world \<Rightarrow> path \<Rightarrow> path \<Rightarrow> path list \<Rightarrow> world" where
  "merge_stage w workDir largeFileName downloadedFiles =
     (if length downloadedFiles > 0
      then (let mergedPath = filepath_Join workDir ''merged_1kb.bin''
            in (case mergeFiles w downloadedFiles mergedPath of
                  (Some err, w1) \<Rightarrow> w1
                | (None, w1) \<Rightarrow> snd (filesEqual w1 largeFileName mergedPath)))
      else w)"

text \<open>
  Lines 106 to 231 of \<^verbatim>\<open>main\<close>: node selection, upload, download, merge. The deferred
  \<^verbatim>\<open>os.RemoveAll(workDir)\<close> of line 89 runs when \<^verbatim>\<open>main\<close> returns or panics.
\<close>

definition transfer_stage ::
  "sdk \<Rightarrow> world \<Rightarrow> path \<Rightarrow> path \<Rightarrow> path list \<Rightarrow> outcome \<times> world" where
  "transfer_stage s w workDir largeFileName fragments =
     (case select_stage s w of
        (Inl err, w1) \<Rightarrow> (Fatal, w1)
      | (Inr selected, w1) \<Rightarrow>
          (let allNodes = Trusted selected @ Discovered selected
           in if length allNodes = 0 then (Fatal, w1)
              else (case upload_loop s w1 0 fragments [] of
                      (rootHashes, w2) \<Rightarrow>
                        (case transfer_NewDownloader s allNodes of
                           Some err \<Rightarrow> (Fatal, emit EvNewDownloader w2)
                         | None \<Rightarrow>
                             (case download_loop s (emit EvNewDownloader w2) workDir fragments 0
                                     rootHashes [] of
                                (Inl err, w3) \<Rightarrow> (Panicked, os_RemoveAll w3 workDir)
                              | (Inr downloadedFiles, w3) \<Rightarrow>
                                  (Returned,
                                   os_RemoveAll
                                     (merge_stage w3 workDir largeFileName downloadedFiles)
                                     workDir))))))"

text \<open>
  \<^verbatim>\<open>main\<close>, lines 36 to 232. The address check of lines 49 to 73 only prints.
  \<^verbatim>\<open>blockchain.MustNewWeb3\<close> ends the program when it fails; the error of
  \<^verbatim>\<open>os.MkdirAll\<close> is dropped by the source.
\<close>

definition main_run :: "config \<Rightarrow> sdk \<Rightarrow> world \<Rightarrow> outcome \<times> world" where
  "main_run cfg s w0 =
     (if \<not> blockchain_MustNewWeb3 s then (Fatal, emit EvNewWeb3 w0)
      else (case indexer_NewClient s of
              Some err \<Rightarrow> (Fatal, emit EvNewClient (emit EvNewWeb3 w0))
            | None \<Rightarrow>
                (let workDir = ''temp_data'';
                     w1 = os_MkdirAll (emit EvNewClient (emit EvNewWeb3 w0)) workDir;
                     largeFileName = filepath_Join workDir ''large_data_1kb.bin''
                 in (case generateRandomFile (rand_Reader s) w1 largeFileName (TotalSize cfg) of
                       (Some err, w2) \<Rightarrow> (Fatal, w2)
                     | (None, w2) \<Rightarrow>
                         (case splitFile w2 largeFileName (FragmentSize cfg) workDir of
                            (Inl err, w3) \<Rightarrow>
                              (if err = MakeslicePanic then (Panicked, os_RemoveAll w3 workDir)
                               else (Fatal, w3))
                          | (Inr fragments, w3) \<Rightarrow>
                              transfer_stage s w3 workDir largeFileName fragments)))))"

section \<open>Auxiliary definitions\<close>

text \<open>
  The fragments of a byte sequence as a list: the specification \<open>splitFile\<close> is
  compared with. It is not part of the program.
\<close>

function chunksOf :: "nat \<Rightarrow> 'a list \<Rightarrow> 'a list list" where
  "chunksOf n xs = (if n = 0 \<or> xs = [] then [] else take n xs # chunksOf n (drop n xs))"
  by pat_completeness auto
termination
  by (relation "measure (\<lambda>(n, xs). length xs)") auto

declare chunksOf.simps [simp del]

text \<open>A small file system for the examples: one source file of five bytes.\<close>

definition demo_world :: world where
  "demo_world =
     \<lparr>files = [''src.bin'' \<mapsto> Regular [1, 2, 3, 4, 5]], nocreate = (\<lambda>p. False), log = []\<rparr>"

text \<open>A file system for comparing files: equal files, a shorter one, an unreadable node.\<close>

definition cmp_world :: world where
  "cmp_world =
     \<lparr>files = [''a'' \<mapsto> Regular [1, 2, 3], ''b'' \<mapsto> Regular [1, 2, 3],
               ''c'' \<mapsto> Regular [1, 2], ''d'' \<mapsto> Unreadable 3],
      nocreate = (\<lambda>p. False), log = []\<rparr>"



text \<open>
  An SDK for the examples: node selection succeeds at the third combination, the upload
  of fragment 1 fails, every download succeeds. \<open>no_nodes_sdk\<close> fails every node
  selection.
\<close>

definition demo_sdk :: sdk where
  "demo_sdk =
     \<lparr>rand_Reader = (\<lambda>i. of_nat (7 * i + 1)),
      blockchain_MustNewWeb3 = True,
      indexer_NewClient = None,
      indexer_SelectNodes =
        (\<lambda>method fullTrusted.
           if method = ''random'' \<and> fullTrusted then Inr \<lparr>Trusted = [''node1''], Discovered = []\<rparr>
           else Inl (RemoteError ''no nodes'')),
      transfer_NewUploader = (\<lambda>i. None),
      uploader_UploadFile =
        (\<lambda>i p. if i = 1 then Inl (RemoteError ''put failed'') else Inr (''tx'', ''root'' @ itoa i)),
      transfer_NewDownloader = (\<lambda>nodes. None),
      downloader_Download = (\<lambda>i root. Inr [of_nat i, 9])\<rparr>"

definition no_nodes_sdk :: sdk where
  "no_nodes_sdk = demo_sdk\<lparr>indexer_SelectNodes := (\<lambda>method fullTrusted. Inl (RemoteError ''no nodes''))\<rparr>"

text \<open>The paths of the source file and of the merged file in \<^verbatim>\<open>main\<close> (lines 91 and 216).\<close>

definition largeFile :: path where
  "largeFile = ''temp_data/large_data_1kb.bin''"

definition mergedFile :: path where
  "mergedFile = ''temp_data/merged_1kb.bin''"

text \<open>A file system with no file, and the configuration of a run on an empty source.\<close>

definition empty_world :: world where
  "empty_world = \<lparr>files = (\<lambda>p. None), nocreate = (\<lambda>p. False), log = []\<rparr>"

definition empty_config :: config where
  "empty_config = \<lparr>TotalSize = 0, FragmentSize = 2\<rparr>"

text \<open>The configuration of a small run: five bytes in fragments of two.\<close>

definition demo_config :: config where
  "demo_config = \<lparr>TotalSize = 5, FragmentSize = 2\<rparr>"

text \<open>
  The upload of fragment \<open>i\<close> succeeds when both SDK calls of the iteration do;
  \<open>uploaded_roots\<close> lists the root hashes of the fragments that succeed, in order.
\<close>

definition upload_ok :: "sdk \<Rightarrow> nat \<times> path \<Rightarrow> bool" where
  "upload_ok s = (\<lambda>(i, fragPath). transfer_NewUploader s i = None \<and> \<not> isl (uploader_UploadFile s i fragPath))"

definition uploaded_root :: "sdk \<Rightarrow> nat \<times> path \<Rightarrow> string" where
  "uploaded_root s = (\<lambda>(i, fragPath). snd (projr (uploader_UploadFile s i fragPath)))"

definition uploaded_roots :: "sdk \<Rightarrow> nat \<Rightarrow> path list \<Rightarrow> string list" where
  "uploaded_roots s i fragments =
     map (uploaded_root s) (filter (upload_ok s) (zip [i..<i + length fragments] fragments))"

text \<open>The root hashes of the download calls of a log, in order.\<close>

fun downloads :: "event list \<Rightarrow> string list" where
  "downloads [] = []"
| "downloads (EvDownload root p # evs) = root # downloads evs"
| "downloads (e # evs) = downloads evs"

section \<open>Facts about the fragments of a list\<close>

lemma chunksOf_Nil [simp]: "chunksOf n [] = []"
  by (subst chunksOf.simps) simp












section \<open>Fragment names are distinct\<close>

lemma digit_inj: "a < 10 \<Longrightarrow> b < 10 \<Longrightarrow> digit a = digit b \<Longrightarrow> a = b"
proof -
  assume a: "a < 10" and b: "b < 10" and e: "digit a = digit b"
  have "(of_char (digit a) :: nat) = (48 + a) mod 256" by (simp add: digit_def)
  moreover have "(of_char (digit b) :: nat) = (48 + b) mod 256" by (simp add: digit_def)
  ultimately have "(48 + a) mod 256 = (48 + b) mod 256" using e by simp
  with a b show "a = b" by simp
qed

lemma itoa_nonempty: "itoa n \<noteq> []"
  by (subst itoa.simps) simp

lemma itoa_small: "n < 10 \<Longrightarrow> itoa n = [digit n]"
  by (subst itoa.simps) simp

lemma itoa_big: "\<not> n < 10 \<Longrightarrow> itoa n = itoa (n div 10) @ [digit (n mod 10)]"
  by (subst itoa.simps) simp

lemma itoa_inj: "itoa m = itoa n \<Longrightarrow> m = n"
proof (induction m arbitrary: n rule: itoa.induct)
  case (1 m)
  show ?case
  proof (cases "m < 10")
    case True
    show ?thesis
    proof (cases "n < 10")
      case n: True
      with True 1(2) show ?thesis by (simp add: itoa_small digit_inj)
    next
      case n: False
      with True 1(2) itoa_nonempty[of "n div 10"] show ?thesis
        by (simp add: itoa_small itoa_big)
    qed
  next
    case False
    show ?thesis
    proof (cases "n < 10")
      case n: True
      with False 1(2) itoa_nonempty[of "m div 10"] show ?thesis
        by (simp add: itoa_small itoa_big)
    next
      case n: False
      from False n 1(2) have e: "itoa (m div 10) = itoa (n div 10)"
        and d: "digit (m mod 10) = digit (n mod 10)"
        by (simp_all add: itoa_big)
      from 1(1)[OF False e] have "m div 10 = n div 10" .
      moreover from d have "m mod 10 = n mod 10" by (intro digit_inj) simp_all
      ultimately show ?thesis by (metis div_mult_mod_eq)
    qed
  qed
qed

lemma chunkName_inj: "chunkName d i = chunkName d j \<Longrightarrow> i = j"
  by (simp add: chunkName_def filepath_Join_def itoa_inj split: if_splits)

section \<open>The calls on regular files\<close>

lemma files_emit [simp]: "files (emit e w) = files w"
  by (simp add: emit_def)

lemma nocreate_emit [simp]: "nocreate (emit e w) = nocreate w"
  by (simp add: emit_def)

lemma log_emit [simp]: "log (emit e w) = log w @ [e]"
  by (simp add: emit_def)

lemma creatable_emit [simp]: "creatable (emit e w) p = creatable w p"
  by (simp add: creatable_def)

lemma os_Open_ok:
  "files w p = Some nd \<Longrightarrow> os_Open w p = (Inr \<lparr>f_path = p, f_off = 0\<rparr>, emit (EvOpen p) w)"
  by (simp add: os_Open_def)

lemma file_Read_eof:
  "files w (f_path f) = Some (Regular bs) \<Longrightarrow> 0 < n \<Longrightarrow> length bs \<le> f_off f \<Longrightarrow>
   file_Read w f n = (([], Some EOF), f, emit (EvRead (f_path f) 0) w)"
  by (simp add: file_Read_def)

lemma file_Read_data:
  "files w (f_path f) = Some (Regular bs) \<Longrightarrow> 0 < n \<Longrightarrow> f_off f < length bs \<Longrightarrow>
   file_Read w f n =
     ((take n (drop (f_off f) bs), None),
      f\<lparr>f_off := f_off f + length (take n (drop (f_off f) bs))\<rparr>,
      emit (EvRead (f_path f) (length (take n (drop (f_off f) bs)))) w)"
  by (simp add: file_Read_def Let_def)


section \<open>The loop of splitFile on a regular source\<close>

lemma drop_after_take: "drop (off + length (take n (drop off bs))) bs = drop n (drop off bs)"
  by (cases "length bs - off \<le> n") (simp_all add: min_def add.commute)



section \<open>The number and the lengths of the fragments\<close>



text \<open>
  The condition on the source path is needed: a source that is itself the first fragment
  file is truncated by the first \<^verbatim>\<open>WriteFile\<close>, and the loop then meets the end of the
  file after one fragment.
\<close>

lemma splitFile_source_overwritten:
  "fst (splitFile (demo_world\<lparr>files := [''out/part_0.bin'' \<mapsto> Regular [1, 2, 3, 4, 5]]\<rparr>)
          ''out/part_0.bin'' 2 ''out'') = Inr [''out/part_0.bin'']"
  by code_simp

section \<open>Every fragment is non-empty\<close>

lemma file_Read_files: "file_Read w f n = (r, f', w1) \<Longrightarrow> files w1 = files w"
  by (auto simp: file_Read_def Let_def split: option.splits node.splits if_splits)

lemma os_WriteFile_files:
  "os_WriteFile w p bs = (None, w2) \<Longrightarrow> files w2 = (files w)(p \<mapsto> Regular bs)"
  by (auto simp: os_WriteFile_def split: if_splits)

lemma splitFile_loop_nonempty:
  "splitFile_loop w src n d i acc = (Inr paths, w') \<Longrightarrow>
   \<exists>k. paths = acc @ map (chunkName d) [i..<i + k]
     \<and> (\<forall>j<k. \<exists>c. files w' (chunkName d (i + j)) = Some (Regular c) \<and> c \<noteq> [])
     \<and> (\<forall>p. (\<forall>j<k. p \<noteq> chunkName d (i + j)) \<longrightarrow> files w' p = files w p)"
proof (induction w src n d i acc arbitrary: paths w' rule: splitFile_loop.induct)
  case (1 w src n outDir i chunkPaths)
  obtain buffer err src' w1 where rd: "file_Read w src n = ((buffer, err), src', w1)"
    by (metis surj_pair)
  from file_Read_files[OF rd] have fw1: "files w1 = files w" .
  have base: "paths = chunkPaths \<Longrightarrow> w' = w1 \<Longrightarrow> ?case"
    using fw1 by (intro exI[of _ 0]) simp
  show ?case
  proof (cases err)
    case (Some e)
    with "1.prems" rd have "paths = chunkPaths \<and> w' = w1"
      by (subst (asm) splitFile_loop.simps) (simp split: if_splits)
    with base show ?thesis by blast
  next
    case None
    show ?thesis
    proof (cases "length buffer = 0")
      case True
      with "1.prems" rd None have "paths = chunkPaths \<and> w' = w1"
        by (subst (asm) splitFile_loop.simps) simp
      with base show ?thesis by blast
    next
      case False
      obtain werr w2 where wr: "os_WriteFile w1 (chunkName outDir i) buffer = (werr, w2)"
        by (metis surj_pair)
      from "1.prems" rd None False wr
      have werr: "werr = None"
        and rec: "splitFile_loop w2 src' n outDir (Suc i) (chunkPaths @ [chunkName outDir i]) =
                   (Inr paths, w')"
        by (subst (asm) splitFile_loop.simps, simp split: option.splits)+
      from os_WriteFile_files[OF wr[unfolded werr]] fw1
      have fw2: "files w2 = (files w)(chunkName outDir i \<mapsto> Regular buffer)" by simp
      from "1.IH"[OF rd[symmetric] refl None refl False wr[symmetric] werr rec]
      obtain k where
        p: "paths = (chunkPaths @ [chunkName outDir i]) @ map (chunkName outDir) [Suc i..<Suc i + k]"
        and cont: "\<forall>j<k. \<exists>c. files w' (chunkName outDir (Suc i + j)) = Some (Regular c) \<and> c \<noteq> []"
        and frame: "\<forall>p. (\<forall>j<k. p \<noteq> chunkName outDir (Suc i + j)) \<longrightarrow> files w' p = files w2 p"
        by blast
      have "[i..<i + Suc k] = i # [Suc i..<Suc i + k]" by (subst upt_rec) simp
      with p have p': "paths = chunkPaths @ map (chunkName outDir) [i..<i + Suc k]" by simp
      have "\<forall>j<k. chunkName outDir i \<noteq> chunkName outDir (Suc i + j)"
        using chunkName_inj[of outDir i] by fastforce
      with frame fw2 have first: "files w' (chunkName outDir i) = Some (Regular buffer)" by simp
      have conts: "\<forall>j<Suc k. \<exists>c. files w' (chunkName outDir (i + j)) = Some (Regular c) \<and> c \<noteq> []"
      proof (intro allI impI)
        fix j assume j: "j < Suc k"
        show "\<exists>c. files w' (chunkName outDir (i + j)) = Some (Regular c) \<and> c \<noteq> []"
        proof (cases j)
          case 0
          with first False show ?thesis by simp
        next
          case (Suc j')
          with j cont show ?thesis by simp
        qed
      qed
      have frames: "\<forall>p. (\<forall>j<Suc k. p \<noteq> chunkName outDir (i + j)) \<longrightarrow> files w' p = files w p"
      proof (intro allI impI)
        fix p assume p: "\<forall>j<Suc k. p \<noteq> chunkName outDir (i + j)"
        then have "p \<noteq> chunkName outDir i" by (metis add.right_neutral zero_less_Suc)
        moreover from p have "\<forall>j<k. p \<noteq> chunkName outDir (Suc i + j)"
          by (metis Suc_less_eq add_Suc_shift)
        ultimately show "files w' p = files w p" using frame fw2 by simp
      qed
      from p' conts frames show ?thesis by blast
    qed
  qed
qed

text \<open>
  Claim C9. Whenever \<open>splitFile\<close> returns a list of paths, whatever the files and the
  chunk size, every path of the list names a regular file of at least one byte: a read
  of zero bytes and the end of the file both leave the loop before a fragment is
  written.
\<close>

theorem splitFile_fragments_nonempty:
  assumes "splitFile w srcPath chunkSize outDir = (Inr paths, w')"
    and "p \<in> set paths"
  shows "\<exists>c. files w' p = Some (Regular c) \<and> 1 \<le> length c"
proof -
  from assms(1) obtain src w1 where
    "splitFile_loop w1 src (nat chunkSize) outDir 0 [] = (Inr paths, w')"
    by (auto simp: splitFile_def split: prod.splits sum.splits if_splits)
  from splitFile_loop_nonempty[OF this] obtain k where
    p: "paths = map (chunkName outDir) [0..<k]"
    and c: "\<forall>j<k. \<exists>c. files w' (chunkName outDir j) = Some (Regular c) \<and> c \<noteq> []"
    by auto
  from assms(2) p obtain j where "j < k" "p = chunkName outDir j" by auto
  with c obtain c where "files w' p = Some (Regular c)" "c \<noteq> []" by blast
  then have "files w' p = Some (Regular c) \<and> 1 \<le> length c"
    by (simp add: Suc_le_eq)
  then show ?thesis ..
qed

lemma demo_split:
  "fst (splitFile demo_world ''src.bin'' 2 ''out'') =
     Inr [''out/part_0.bin'', ''out/part_1.bin'', ''out/part_2.bin'']"
  by code_simp

theorem splitFile_fragments_nonempty_witness:
  "\<exists>paths w'. splitFile demo_world ''src.bin'' 2 ''out'' = (Inr paths, w')
     \<and> ''out/part_2.bin'' \<in> set paths
     \<and> (\<exists>c. files w' ''out/part_2.bin'' = Some (Regular c) \<and> 1 \<le> length c)"
proof -
  obtain w' where
    r: "splitFile demo_world ''src.bin'' 2 ''out'' =
          (Inr [''out/part_0.bin'', ''out/part_1.bin'', ''out/part_2.bin''], w')"
    using demo_split by (cases "splitFile demo_world ''src.bin'' 2 ''out''") simp
  have m: "''out/part_2.bin'' \<in> set [''out/part_0.bin'', ''out/part_1.bin'', ''out/part_2.bin'']"
    by simp
  from splitFile_fragments_nonempty[OF r m] r m show ?thesis by blast
qed

section \<open>Splitting and merging again\<close>


lemma os_Create_ok:
  "creatable w p \<Longrightarrow>
   os_Create w p = (Inr \<lparr>f_path = p, f_off = 0\<rparr>,
                    emit (EvCreate p) (w\<lparr>files := (files w)(p \<mapsto> Regular [])\<rparr>))"
  by (simp add: os_Create_def)





section \<open>Comparing two files\<close>

lemma list_ex_nth_neq:
  assumes l: "length xs = length ys"
  shows "list_ex (\<lambda>i. xs ! i \<noteq> ys ! i) [0..<length xs] = (xs \<noteq> ys)"
proof -
  have "list_ex (\<lambda>i. xs ! i \<noteq> ys ! i) [0..<length xs] = (\<exists>i<length xs. xs ! i \<noteq> ys ! i)"
    by (simp add: list_ex_iff Bex_def)
  also have "\<dots> = (\<not> (\<forall>i<length xs. xs ! i = ys ! i))" by blast
  also have "\<dots> = (xs \<noteq> ys)"
  proof -
    have "(xs = ys) = (\<forall>i<length xs. xs ! i = ys ! i)"
      using l nth_equalityI[of xs ys] by blast
    then show ?thesis by (simp only:)
  qed
  finally show ?thesis .
qed

lemma file_Read_unreadable:
  "files w (f_path f) = Some (Unreadable k) \<Longrightarrow>
   file_Read w f 32768 = (([], Some (ReadError (f_path f))), f, emit (EvRead (f_path f) 0) w)"
  by (simp add: file_Read_def)

lemma filesEqual_loop_regular:
  assumes len: "length b1 = length b2"
  shows "files w (f_path f1) = Some (Regular b1) \<Longrightarrow> files w (f_path f2) = Some (Regular b2) \<Longrightarrow>
     f_off f1 = off \<Longrightarrow> f_off f2 = off \<Longrightarrow>
     fst (filesEqual_loop w f1 f2) = (drop off b1 = drop off b2)"
proof (induction "length b1 - off" arbitrary: w f1 f2 off rule: less_induct)
  case less
  have N: "0 < (32768::nat)" by simp
  show ?case
  proof (cases "length b1 \<le> off")
    case True
    with len have e2: "length b2 \<le> f_off f2" and e1: "length b1 \<le> f_off f1"
      using less.prems by simp_all
    have f2': "files (emit (EvRead (f_path f1) 0) w) (f_path f2) = Some (Regular b2)"
      using less.prems by simp
    from True len show ?thesis
      by (subst filesEqual_loop.simps)
         (simp add: file_Read_eof[OF less.prems(1) N e1] file_Read_eof[OF f2' N e2])
  next
    case False
    define d1 where "d1 = take 32768 (drop off b1)"
    define d2 where "d2 = take 32768 (drop off b2)"
    define g1 where "g1 = f1\<lparr>f_off := off + length d1\<rparr>"
    define g2 where "g2 = f2\<lparr>f_off := off + length d2\<rparr>"
    define w1 where "w1 = emit (EvRead (f_path f1) (length d1)) w"
    define w2 where "w2 = emit (EvRead (f_path f2) (length d2)) w1"
    from False len less.prems have o1: "f_off f1 < length b1" and o2: "f_off f2 < length b2"
      by simp_all
    have r1: "file_Read w f1 32768 = ((d1, None), g1, w1)"
      using file_Read_data[OF less.prems(1) N o1] less.prems(3)
      by (simp only: d1_def g1_def w1_def)
    have f2': "files w1 (f_path f2) = Some (Regular b2)"
      using less.prems by (simp add: w1_def)
    have r2: "file_Read w1 f2 32768 = ((d2, None), g2, w2)"
      using file_Read_data[OF f2' N o2] less.prems(4)
      by (simp only: d2_def g2_def w2_def)
    have ll: "length d1 = length d2" using len by (simp add: d1_def d2_def)
    have pos: "0 < length d1" using False by (simp add: d1_def)
    have le: "list_ex (\<lambda>i. d1 ! i \<noteq> d2 ! i) [0..<length d2] = (d1 \<noteq> d2)"
      using list_ex_nth_neq[OF ll] by (simp only: ll)
    have unf: "filesEqual_loop w f1 f2 =
        (if d1 \<noteq> d2 then (False, w2) else filesEqual_loop w2 g1 g2)"
      by (subst filesEqual_loop.simps) (simp add: r1 r2 le ll)
    have split1: "drop off b1 = d1 @ drop (off + length d1) b1"
      unfolding d1_def by (simp only: drop_after_take append_take_drop_id)
    have "drop off b2 = d2 @ drop (off + length d2) b2"
      unfolding d2_def by (simp only: drop_after_take append_take_drop_id)
    then have split2: "drop off b2 = d2 @ drop (off + length d1) b2"
      by (simp only: ll)
    show ?thesis
    proof (cases "d1 = d2")
      case True
      have m: "length b1 - (off + length d1) < length b1 - off" using pos False by linarith
      have p1: "files w2 (f_path g1) = Some (Regular b1)"
        using less.prems by (simp add: w2_def w1_def g1_def)
      have p2: "files w2 (f_path g2) = Some (Regular b2)"
        using less.prems by (simp add: w2_def w1_def g2_def)
      have p3: "f_off g1 = off + length d1" by (simp add: g1_def)
      have p4: "f_off g2 = off + length d1" by (simp add: g2_def ll)
      have "fst (filesEqual_loop w2 g1 g2) =
            (drop (off + length d1) b1 = drop (off + length d1) b2)"
        by (rule less.hyps[OF m p1 p2 p3 p4])
      moreover have "(drop off b1 = drop off b2) =
            (drop (off + length d1) b1 = drop (off + length d1) b2)"
        by (subst split1, subst split2) (simp add: True)
      ultimately show ?thesis using True unf by simp
    next
      case False
      then have "drop off b1 \<noteq> drop off b2"
        using ll by (subst split1, subst split2) simp
      with False unf show ?thesis by simp
    qed
  qed
qed

lemma filesEqual_loop_unreadable1:
  "files w (f_path f1) = Some (Unreadable k) \<Longrightarrow> fst (filesEqual_loop w f1 f2) = False"
  by (subst filesEqual_loop.simps) (simp add: file_Read_unreadable split: prod.splits)

lemma filesEqual_loop_unreadable2:
  assumes "files w (f_path f2) = Some (Unreadable k)"
  shows "fst (filesEqual_loop w f1 f2) = False"
proof -
  obtain b1 e1 g1 w1 where r1: "file_Read w f1 32768 = ((b1, e1), g1, w1)"
    by (metis surj_pair)
  from file_Read_files[OF r1] assms have "files w1 (f_path f2) = Some (Unreadable k)" by simp
  from file_Read_unreadable[OF this] r1 show ?thesis
    by (subst filesEqual_loop.simps) simp
qed

text \<open>
  Claim C3. \<open>filesEqual\<close> answers true exactly when both paths hold regular files with
  the same bytes. When two regular files differ in length it answers false after the
  two \<^verbatim>\<open>Open\<close> calls alone: the log gains no read. A path that cannot be opened, and
  a node whose reads fail, give the answer false; the result is a boolean, so no error
  reaches the caller.
\<close>

theorem filesEqual_verdict:
  "fst (filesEqual w file1 file2) =
     (\<exists>bs. files w file1 = Some (Regular bs) \<and> files w file2 = Some (Regular bs))
   \<and> (\<forall>b1 b2. files w file1 = Some (Regular b1) \<longrightarrow> files w file2 = Some (Regular b2) \<longrightarrow>
         length b1 \<noteq> length b2 \<longrightarrow>
         snd (filesEqual w file1 file2) = emit (EvOpen file2) (emit (EvOpen file1) w))
   \<and> (files w file1 = None \<or> files w file2 = None \<longrightarrow> \<not> fst (filesEqual w file1 file2))
   \<and> ((\<exists>k. files w file1 = Some (Unreadable k)) \<or> (\<exists>k. files w file2 = Some (Unreadable k)) \<longrightarrow>
         \<not> fst (filesEqual w file1 file2))"
proof -
  let ?w1 = "emit (EvOpen file1) w"
  let ?w2 = "emit (EvOpen file2) ?w1"
  let ?f1 = "\<lparr>f_path = file1, f_off = 0\<rparr>"
  let ?f2 = "\<lparr>f_path = file2, f_off = 0\<rparr>"
  have verdict: "fst (filesEqual w file1 file2) =
     (\<exists>bs. files w file1 = Some (Regular bs) \<and> files w file2 = Some (Regular bs))"
  proof (cases "files w file1")
    case None
    then show ?thesis by (simp add: filesEqual_def os_Open_def)
  next
    case (Some n1)
    note s1 = this
    show ?thesis
    proof (cases "files w file2")
      case None
      with s1 show ?thesis by (simp add: filesEqual_def os_Open_def)
    next
      case (Some n2)
      note s2 = this
      have unf: "filesEqual w file1 file2 =
          (if file_Size ?w2 ?f1 \<noteq> file_Size ?w2 ?f2 then (False, ?w2)
           else filesEqual_loop ?w2 ?f1 ?f2)"
        using s1 s2 by (simp add: filesEqual_def os_Open_def)
      show ?thesis
      proof (cases n1)
        case (Unreadable k)
        with s1 have "files ?w2 (f_path ?f1) = Some (Unreadable k)" by simp
        from filesEqual_loop_unreadable1[OF this] unf s1 Unreadable show ?thesis by simp
      next
        case (Regular b1)
        note r1 = this
        show ?thesis
        proof (cases n2)
          case (Unreadable k)
          with s2 have "files ?w2 (f_path ?f2) = Some (Unreadable k)" by simp
          from filesEqual_loop_unreadable2[OF this] unf s2 Unreadable show ?thesis by simp
        next
          case (Regular b2)
          show ?thesis
          proof (cases "length b1 = length b2")
            case True
            have p1: "files ?w2 (f_path ?f1) = Some (Regular b1)" using s1 r1 by simp
            have p2: "files ?w2 (f_path ?f2) = Some (Regular b2)" using s2 Regular by simp
            have "fst (filesEqual_loop ?w2 ?f1 ?f2) = (drop 0 b1 = drop 0 b2)"
              by (rule filesEqual_loop_regular[OF True p1 p2]) simp_all
            with unf True s1 s2 r1 Regular show ?thesis by (auto simp: file_Size_def)
          next
            case False
            with unf s1 s2 r1 Regular show ?thesis by (auto simp: file_Size_def)
          qed
        qed
      qed
    qed
  qed
  have early: "\<forall>b1 b2. files w file1 = Some (Regular b1) \<longrightarrow> files w file2 = Some (Regular b2) \<longrightarrow>
         length b1 \<noteq> length b2 \<longrightarrow> snd (filesEqual w file1 file2) = ?w2"
    by (simp add: filesEqual_def os_Open_def file_Size_def)
  have opens: "files w file1 = None \<or> files w file2 = None \<longrightarrow> \<not> fst (filesEqual w file1 file2)"
    using verdict by auto
  have reads: "(\<exists>k. files w file1 = Some (Unreadable k)) \<or> (\<exists>k. files w file2 = Some (Unreadable k)) \<longrightarrow>
         \<not> fst (filesEqual w file1 file2)"
    using verdict by auto
  from verdict early opens reads show ?thesis by (intro conjI)
qed

lemma cmp_world_files:
  "files cmp_world ''a'' = Some (Regular [1, 2, 3])"
  "files cmp_world ''b'' = Some (Regular [1, 2, 3])"
  "files cmp_world ''c'' = Some (Regular [1, 2])"
  "files cmp_world ''d'' = Some (Unreadable 3)"
  "files cmp_world ''e'' = None"
  "files cmp_world ''o'' = None"
  by (simp_all add: cmp_world_def)

theorem filesEqual_verdict_witness:
  "fst (filesEqual cmp_world ''a'' ''b'')
   \<and> \<not> fst (filesEqual cmp_world ''a'' ''c'')
   \<and> snd (filesEqual cmp_world ''a'' ''c'') = emit (EvOpen ''c'') (emit (EvOpen ''a'') cmp_world)
   \<and> \<not> fst (filesEqual cmp_world ''a'' ''e'')
   \<and> \<not> fst (filesEqual cmp_world ''d'' ''a'')"
  using filesEqual_verdict[of cmp_world "''a''" "''b''"]
    filesEqual_verdict[of cmp_world "''a''" "''c''"]
    filesEqual_verdict[of cmp_world "''a''" "''e''"]
    filesEqual_verdict[of cmp_world "''d''" "''a''"]
  by (simp add: cmp_world_files)

section \<open>Failures of the merge\<close>







section \<open>Node selection\<close>



section \<open>A run on an empty source\<close>

lemma mergedFile_Join: "filepath_Join ''temp_data'' ''merged_1kb.bin'' = mergedFile"
  by (simp add: filepath_Join_def mergedFile_def)

lemma largeFile_Join: "filepath_Join ''temp_data'' ''large_data_1kb.bin'' = largeFile"
  by (simp add: filepath_Join_def largeFile_def)

lemma generateRandomFile_ok:
  "creatable w p \<Longrightarrow>
   generateRandomFile rnd w p n =
     (None, emit (EvCopy p ''rand.Reader'' (nat n))
              (emit (EvCreate p) (w\<lparr>files := (files w)(p \<mapsto> Regular (map rnd [0..<nat n]))\<rparr>)))"
  by (simp add: generateRandomFile_def os_Create_def io_CopyN_def emit_def)

lemma splitFile_empty_source:
  assumes "files w srcPath = Some (Regular [])" and "0 \<le> chunkSize"
  shows "splitFile w srcPath chunkSize outDir =
           (Inr [], emit (EvRead srcPath 0) (emit (EvOpen srcPath) w))"
proof -
  have "splitFile_loop (emit (EvOpen srcPath) w) \<lparr>f_path = srcPath, f_off = 0\<rparr> (nat chunkSize) outDir 0 [] =
        (Inr [], emit (EvRead srcPath 0) (emit (EvOpen srcPath) w))"
    using assms(1) by (subst splitFile_loop.simps) (simp add: file_Read_def)
  with assms show ?thesis by (simp add: splitFile_def os_Open_ok[OF assms(1)])
qed

lemma transfer_stage_no_fragments:
  "transfer_stage s w workDir largeFileName [] =
     (case select_stage s w of
        (Inl err, w1) \<Rightarrow> (Fatal, w1)
      | (Inr selected, w1) \<Rightarrow>
          (if Trusted selected @ Discovered selected = [] then (Fatal, w1)
           else (case transfer_NewDownloader s (Trusted selected @ Discovered selected) of
                   Some err \<Rightarrow> (Fatal, emit EvNewDownloader w1)
                 | None \<Rightarrow> (Returned, os_RemoveAll (emit EvNewDownloader w1) workDir))))"
  by (simp add: transfer_stage_def merge_stage_def Let_def split: prod.splits sum.splits option.splits)

lemma select_stage_log:
  "\<exists>evs. log (snd (select_stage s w)) = log w @ evs \<and> (\<forall>e\<in>set evs. \<exists>m t. e = EvSelectNodes m t)"
  by (cases "indexer_SelectNodes s [] True"; cases "indexer_SelectNodes s [] False";
      cases "indexer_SelectNodes s ''random'' True"; cases "indexer_SelectNodes s ''random'' False";
      auto simp: select_stage_def SelectNodes_def)

lemma transfer_stage_no_fragments_log:
  "\<exists>evs. log (snd (transfer_stage s w workDir largeFileName [])) = log w @ evs
     \<and> (\<forall>e\<in>set evs. (\<exists>m t. e = EvSelectNodes m t) \<or> e = EvNewDownloader \<or> e = EvRemoveAll workDir)"
proof -
  obtain r w1 where sel: "select_stage s w = (r, w1)" by (metis surj_pair)
  from select_stage_log[of s w] sel obtain evs where
    l: "log w1 = log w @ evs" and a: "\<forall>e\<in>set evs. \<exists>m t. e = EvSelectNodes m t" by auto
  have "snd (transfer_stage s w workDir largeFileName []) = w1
      \<or> snd (transfer_stage s w workDir largeFileName []) = emit EvNewDownloader w1
      \<or> snd (transfer_stage s w workDir largeFileName []) = os_RemoveAll (emit EvNewDownloader w1) workDir"
    by (simp add: transfer_stage_no_fragments sel split: sum.splits option.splits)
  then consider
      "log (snd (transfer_stage s w workDir largeFileName [])) = log w @ evs"
    | "log (snd (transfer_stage s w workDir largeFileName [])) = log w @ (evs @ [EvNewDownloader])"
    | "log (snd (transfer_stage s w workDir largeFileName [])) =
         log w @ (evs @ [EvNewDownloader, EvRemoveAll workDir])"
    using l by (auto simp: os_RemoveAll_def)
  then show ?thesis
  proof cases
    case 1
    with a show ?thesis by blast
  next
    case 2
    have "\<forall>e\<in>set (evs @ [EvNewDownloader]).
        (\<exists>m t. e = EvSelectNodes m t) \<or> e = EvNewDownloader \<or> e = EvRemoveAll workDir"
      using a by auto
    with 2 show ?thesis by blast
  next
    case 3
    have "\<forall>e\<in>set (evs @ [EvNewDownloader, EvRemoveAll workDir]).
        (\<exists>m t. e = EvSelectNodes m t) \<or> e = EvNewDownloader \<or> e = EvRemoveAll workDir"
      using a by auto
    with 3 show ?thesis by blast
  qed
qed

lemma main_run_empty_source:
  assumes web3: "blockchain_MustNewWeb3 s"
    and client: "indexer_NewClient s = None"
    and T: "TotalSize cfg = 0"
    and F: "0 \<le> FragmentSize cfg"
    and cr: "creatable w0 largeFile"
  shows "main_run cfg s w0 =
     transfer_stage s
       (emit (EvRead largeFile 0) (emit (EvOpen largeFile)
          (emit (EvCopy largeFile ''rand.Reader'' 0) (emit (EvCreate largeFile)
             ((os_MkdirAll (emit EvNewClient (emit EvNewWeb3 w0)) ''temp_data'')
                \<lparr>files := (files w0)(largeFile \<mapsto> Regular [])\<rparr>)))))
       ''temp_data'' largeFile []"
proof -
  let ?w1 = "os_MkdirAll (emit EvNewClient (emit EvNewWeb3 w0)) ''temp_data''"
  let ?w2 = "emit (EvCopy largeFile ''rand.Reader'' 0) (emit (EvCreate largeFile)
               (?w1\<lparr>files := (files w0)(largeFile \<mapsto> Regular [])\<rparr>))"
  have c1: "creatable ?w1 largeFile" using cr by (simp add: os_MkdirAll_def)
  have g: "generateRandomFile (rand_Reader s) ?w1 largeFile (TotalSize cfg) = (None, ?w2)"
    using generateRandomFile_ok[OF c1, of "rand_Reader s" 0] T by (simp add: os_MkdirAll_def)
  have e: "files ?w2 largeFile = Some (Regular [])" by simp
  note sp = splitFile_empty_source[OF e F, of "''temp_data''"]
  show ?thesis
    using web3 client by (simp add: main_run_def Let_def largeFile_Join g sp)
qed

lemma fst_select_stage: "fst (select_stage s w) = fst (select_stage s w')"
  by (simp add: select_stage_def SelectNodes_def split: sum.splits)

lemma main_run_empty_source_log:
  assumes web3: "blockchain_MustNewWeb3 s"
    and client: "indexer_NewClient s = None"
    and T: "TotalSize cfg = 0"
    and F: "0 \<le> FragmentSize cfg"
    and cr: "creatable w0 largeFile"
  shows "\<exists>evs. log (snd (main_run cfg s w0)) = log w0 @ evs
     \<and> (\<forall>e\<in>set evs.
           e \<in> {EvNewWeb3, EvNewClient, EvMkdirAll ''temp_data'', EvCreate largeFile,
                 EvCopy largeFile ''rand.Reader'' 0, EvOpen largeFile, EvRead largeFile 0,
                 EvNewDownloader, EvRemoveAll ''temp_data''}
           \<or> (\<exists>m t. e = EvSelectNodes m t))"
proof -
  let ?pre = "[EvNewWeb3, EvNewClient, EvMkdirAll ''temp_data'', EvCreate largeFile,
               EvCopy largeFile ''rand.Reader'' 0, EvOpen largeFile, EvRead largeFile 0]"
  let ?w3 = "emit (EvRead largeFile 0) (emit (EvOpen largeFile)
          (emit (EvCopy largeFile ''rand.Reader'' 0) (emit (EvCreate largeFile)
             ((os_MkdirAll (emit EvNewClient (emit EvNewWeb3 w0)) ''temp_data'')
                \<lparr>files := (files w0)(largeFile \<mapsto> Regular [])\<rparr>))))"
  have l3: "log ?w3 = log w0 @ ?pre" by (simp add: os_MkdirAll_def)
  from transfer_stage_no_fragments_log[of s ?w3 "''temp_data''" largeFile]
  obtain evs where
    l: "log (snd (transfer_stage s ?w3 ''temp_data'' largeFile [])) = log ?w3 @ evs"
    and a: "\<forall>e\<in>set evs. (\<exists>m t. e = EvSelectNodes m t) \<or> e = EvNewDownloader
              \<or> e = EvRemoveAll ''temp_data''"
    by blast
  have "log (snd (main_run cfg s w0)) = log w0 @ (?pre @ evs)"
    using l l3 by (simp only: main_run_empty_source[OF assms] append_assoc)
  moreover have "\<forall>e\<in>set (?pre @ evs).
           e \<in> {EvNewWeb3, EvNewClient, EvMkdirAll ''temp_data'', EvCreate largeFile,
                 EvCopy largeFile ''rand.Reader'' 0, EvOpen largeFile, EvRead largeFile 0,
                 EvNewDownloader, EvRemoveAll ''temp_data''}
           \<or> (\<exists>m t. e = EvSelectNodes m t)"
    using a by auto
  ultimately show ?thesis by blast
qed

lemma main_run_empty_source_outcome:
  assumes web3: "blockchain_MustNewWeb3 s"
    and client: "indexer_NewClient s = None"
    and T: "TotalSize cfg = 0"
    and F: "0 \<le> FragmentSize cfg"
    and cr: "creatable w0 largeFile"
  shows "fst (main_run cfg s w0) =
     (case fst (select_stage s w0) of
        Inl err \<Rightarrow> Fatal
      | Inr selected \<Rightarrow>
          (if Trusted selected @ Discovered selected = [] then Fatal
           else (case transfer_NewDownloader s (Trusted selected @ Discovered selected) of
                   Some err \<Rightarrow> Fatal
                 | None \<Rightarrow> Returned)))"
proof -
  let ?w3 = "emit (EvRead largeFile 0) (emit (EvOpen largeFile)
          (emit (EvCopy largeFile ''rand.Reader'' 0) (emit (EvCreate largeFile)
             ((os_MkdirAll (emit EvNewClient (emit EvNewWeb3 w0)) ''temp_data'')
                \<lparr>files := (files w0)(largeFile \<mapsto> Regular [])\<rparr>))))"
  obtain r w1 where sel: "select_stage s ?w3 = (r, w1)" by (metis surj_pair)
  have "fst (select_stage s w0) = fst (select_stage s ?w3)" by (rule fst_select_stage)
  with sel have r: "fst (select_stage s w0) = r" by simp
  show ?thesis
    unfolding main_run_empty_source[OF assms] transfer_stage_no_fragments sel r
    by (simp split: sum.splits option.splits)
qed

text \<open>
  Claim C8. A run with \<open>TotalSize = 0\<close>, whose SDK clients start and whose source file
  can be created: the generated source is empty, \<open>splitFile\<close> returns the empty list and
  no error, and the events of the whole run hold no upload call, no download, no
  \<^verbatim>\<open>WriteFile\<close>, and no \<^verbatim>\<open>Create\<close> or copy to any file but the source: the merge never
  starts and no merged file is made. The run returns, unless the SDK gives no node or
  no downloader, which are its only fatal ends.
\<close>

theorem empty_source_run:
  assumes web3: "blockchain_MustNewWeb3 s"
    and client: "indexer_NewClient s = None"
    and T: "TotalSize cfg = 0"
    and F: "0 \<le> FragmentSize cfg"
    and cr: "creatable w0 largeFile"
  shows "\<exists>w2 w3 evs.
       generateRandomFile (rand_Reader s)
         (os_MkdirAll (emit EvNewClient (emit EvNewWeb3 w0)) ''temp_data'') largeFile
         (TotalSize cfg) = (None, w2)
     \<and> files w2 largeFile = Some (Regular [])
     \<and> splitFile w2 largeFile (FragmentSize cfg) ''temp_data'' = (Inr [], w3)
     \<and> log (snd (main_run cfg s w0)) = log w0 @ evs
     \<and> EvNewUploader \<notin> set evs
     \<and> (\<forall>p. EvUploadFile p \<notin> set evs)
     \<and> (\<forall>r p. EvDownload r p \<notin> set evs)
     \<and> (\<forall>p. EvCreate p \<in> set evs \<longrightarrow> p = largeFile)
     \<and> (\<forall>d p n. EvCopy d p n \<in> set evs \<longrightarrow> d = largeFile)
     \<and> (\<forall>p n. EvWriteFile p n \<notin> set evs)
     \<and> fst (main_run cfg s w0) =
         (case fst (select_stage s w0) of
            Inl err \<Rightarrow> Fatal
          | Inr selected \<Rightarrow>
              (if Trusted selected @ Discovered selected = [] then Fatal
               else (case transfer_NewDownloader s (Trusted selected @ Discovered selected) of
                       Some err \<Rightarrow> Fatal
                     | None \<Rightarrow> Returned)))"
proof -
  let ?w1 = "os_MkdirAll (emit EvNewClient (emit EvNewWeb3 w0)) ''temp_data''"
  let ?w2 = "emit (EvCopy largeFile ''rand.Reader'' 0) (emit (EvCreate largeFile)
               (?w1\<lparr>files := (files ?w1)(largeFile \<mapsto> Regular (map (rand_Reader s) [0..<nat 0]))\<rparr>))"
  let ?w3 = "emit (EvRead largeFile 0) (emit (EvOpen largeFile) ?w2)"
  have c1: "creatable ?w1 largeFile" using cr by (simp add: os_MkdirAll_def)
  have g: "generateRandomFile (rand_Reader s) ?w1 largeFile (TotalSize cfg) = (None, ?w2)"
    using generateRandomFile_ok[OF c1, of "rand_Reader s" 0] T by simp
  have e: "files ?w2 largeFile = Some (Regular [])" by simp
  have sp: "splitFile ?w2 largeFile (FragmentSize cfg) ''temp_data'' = (Inr [], ?w3)"
    by (rule splitFile_empty_source[OF e F])
  from main_run_empty_source_log[OF assms] obtain evs where
    l: "log (snd (main_run cfg s w0)) = log w0 @ evs"
    and a: "\<forall>e\<in>set evs.
           e \<in> {EvNewWeb3, EvNewClient, EvMkdirAll ''temp_data'', EvCreate largeFile,
                 EvCopy largeFile ''rand.Reader'' 0, EvOpen largeFile, EvRead largeFile 0,
                 EvNewDownloader, EvRemoveAll ''temp_data''}
           \<or> (\<exists>m t. e = EvSelectNodes m t)"
    by blast
  from a have u1: "EvNewUploader \<notin> set evs" by fastforce
  from a have u2: "\<forall>p. EvUploadFile p \<notin> set evs" by fastforce
  from a have u3: "\<forall>r p. EvDownload r p \<notin> set evs" by fastforce
  from a have u4: "\<forall>p. EvCreate p \<in> set evs \<longrightarrow> p = largeFile" by fastforce
  from a have u5: "\<forall>d p n. EvCopy d p n \<in> set evs \<longrightarrow> d = largeFile" by fastforce
  from a have u6: "\<forall>p n. EvWriteFile p n \<notin> set evs" by fastforce
  note o = main_run_empty_source_outcome[OF assms]
  from g e sp l u1 u2 u3 u4 u5 u6 o show ?thesis by (intro exI conjI)
qed

lemma demo_run_hyps:
  "blockchain_MustNewWeb3 demo_sdk"
  "indexer_NewClient demo_sdk = None"
  "TotalSize empty_config = 0"
  "0 \<le> FragmentSize empty_config"
  "creatable empty_world largeFile"
  by (simp_all add: demo_sdk_def empty_config_def empty_world_def creatable_def)

lemma demo_select: "fst (select_stage demo_sdk w) = Inr \<lparr>Trusted = [''node1''], Discovered = []\<rparr>"
  by (simp add: select_stage_def SelectNodes_def demo_sdk_def)

theorem empty_source_run_witness:
  "\<exists>w2 w3 evs.
       generateRandomFile (rand_Reader demo_sdk)
         (os_MkdirAll (emit EvNewClient (emit EvNewWeb3 empty_world)) ''temp_data'') largeFile
         (TotalSize empty_config) = (None, w2)
     \<and> files w2 largeFile = Some (Regular [])
     \<and> splitFile w2 largeFile (FragmentSize empty_config) ''temp_data'' = (Inr [], w3)
     \<and> log (snd (main_run empty_config demo_sdk empty_world)) = log empty_world @ evs
     \<and> EvNewUploader \<notin> set evs
     \<and> EvCreate mergedFile \<notin> set evs
     \<and> fst (main_run empty_config demo_sdk empty_world) = Returned"
proof -
  from empty_source_run[OF demo_run_hyps] obtain w2 w3 evs where
    g: "generateRandomFile (rand_Reader demo_sdk)
         (os_MkdirAll (emit EvNewClient (emit EvNewWeb3 empty_world)) ''temp_data'') largeFile
         (TotalSize empty_config) = (None, w2)"
    and e: "files w2 largeFile = Some (Regular [])"
    and sp: "splitFile w2 largeFile (FragmentSize empty_config) ''temp_data'' = (Inr [], w3)"
    and l: "log (snd (main_run empty_config demo_sdk empty_world)) = log empty_world @ evs"
    and u: "EvNewUploader \<notin> set evs"
    and c: "\<forall>p. EvCreate p \<in> set evs \<longrightarrow> p = largeFile"
    and o: "fst (main_run empty_config demo_sdk empty_world) =
         (case fst (select_stage demo_sdk empty_world) of
            Inl err \<Rightarrow> Fatal
          | Inr selected \<Rightarrow>
              (if Trusted selected @ Discovered selected = [] then Fatal
               else (case transfer_NewDownloader demo_sdk (Trusted selected @ Discovered selected) of
                       Some err \<Rightarrow> Fatal
                     | None \<Rightarrow> Returned)))"
    by (elim exE conjE) (rule that, assumption+)
  have "mergedFile \<noteq> largeFile" by (simp add: mergedFile_def largeFile_def)
  with c have m: "EvCreate mergedFile \<notin> set evs" by blast
  from o have r: "fst (main_run empty_config demo_sdk empty_world) = Returned"
    by (simp add: demo_select) (simp add: demo_sdk_def)
  from g e sp l u m r show ?thesis by (intro exI conjI)
qed

text \<open>
  Claim C10. With an empty list of fragments and an output path that can be created,
  \<open>mergeFiles\<close> returns no error and leaves a regular file of zero bytes at the output
  path, whether or not a file was there before. The merge stage of \<^verbatim>\<open>main\<close>, given no
  downloaded file, leaves everything as it is, and a run with \<open>TotalSize = 0\<close>
  never calls \<^verbatim>\<open>Create\<close> on the merged file.
\<close>

theorem mergeFiles_no_fragments:
  "(creatable w outputPath \<longrightarrow>
      mergeFiles w [] outputPath =
        (None, emit (EvCreate outputPath) (w\<lparr>files := (files w)(outputPath \<mapsto> Regular [])\<rparr>)))
   \<and> merge_stage w workDir largeFileName [] = w
   \<and> (blockchain_MustNewWeb3 s \<longrightarrow> indexer_NewClient s = None \<longrightarrow> TotalSize cfg = 0 \<longrightarrow>
       0 \<le> FragmentSize cfg \<longrightarrow> creatable w0 largeFile \<longrightarrow>
       (\<exists>evs. log (snd (main_run cfg s w0)) = log w0 @ evs \<and> EvCreate mergedFile \<notin> set evs))"
proof (intro conjI impI)
  assume "creatable w outputPath"
  then show "mergeFiles w [] outputPath =
      (None, emit (EvCreate outputPath) (w\<lparr>files := (files w)(outputPath \<mapsto> Regular [])\<rparr>))"
    by (simp add: mergeFiles_def os_Create_ok)
next
  show "merge_stage w workDir largeFileName [] = w" by (simp add: merge_stage_def)
next
  assume h: "blockchain_MustNewWeb3 s" "indexer_NewClient s = None" "TotalSize cfg = 0"
    "0 \<le> FragmentSize cfg" "creatable w0 largeFile"
  from main_run_empty_source_log[OF h] obtain evs where
    l: "log (snd (main_run cfg s w0)) = log w0 @ evs"
    and a: "\<forall>e\<in>set evs.
           e \<in> {EvNewWeb3, EvNewClient, EvMkdirAll ''temp_data'', EvCreate largeFile,
                 EvCopy largeFile ''rand.Reader'' 0, EvOpen largeFile, EvRead largeFile 0,
                 EvNewDownloader, EvRemoveAll ''temp_data''}
           \<or> (\<exists>m t. e = EvSelectNodes m t)"
    by blast
  have "mergedFile \<noteq> largeFile" by (simp add: mergedFile_def largeFile_def)
  with a have "EvCreate mergedFile \<notin> set evs" by fastforce
  with l show "\<exists>evs. log (snd (main_run cfg s w0)) = log w0 @ evs \<and> EvCreate mergedFile \<notin> set evs"
    by blast
qed

theorem mergeFiles_no_fragments_witness:
  "mergeFiles demo_world [] ''merged.bin'' =
     (None, emit (EvCreate ''merged.bin'')
              (demo_world\<lparr>files := (files demo_world)(''merged.bin'' \<mapsto> Regular [])\<rparr>))
   \<and> (\<exists>evs. log (snd (main_run empty_config demo_sdk empty_world)) = log empty_world @ evs
          \<and> EvCreate mergedFile \<notin> set evs)"
proof -
  have cr: "creatable demo_world ''merged.bin''" by (simp add: creatable_def demo_world_def)
  note t = mergeFiles_no_fragments[where w = demo_world and outputPath = "''merged.bin''"
      and s = demo_sdk and cfg = empty_config and ?w0.0 = empty_world]
  from t[THEN conjunct1, rule_format, OF cr]
  have a: "mergeFiles demo_world [] ''merged.bin'' =
     (None, emit (EvCreate ''merged.bin'')
              (demo_world\<lparr>files := (files demo_world)(''merged.bin'' \<mapsto> Regular [])\<rparr>))" .
  from t[THEN conjunct2, THEN conjunct2, rule_format, OF demo_run_hyps]
  have b: "\<exists>evs. log (snd (main_run empty_config demo_sdk empty_world)) = log empty_world @ evs
          \<and> EvCreate mergedFile \<notin> set evs" .
  from a b show ?thesis by (rule conjI)
qed

section \<open>The working directory at the end of a run\<close>

text \<open>
  Claim C4, at an input where it fails. Every call of \<^verbatim>\<open>SelectNodes\<close> fails, so the run
  ends at the \<^verbatim>\<open>log.Fatalf\<close> of line 136, which exits without running the deferred
  \<^verbatim>\<open>os.RemoveAll\<close> of line 89: the source file and the fragment files are still there
  when the process ends, and the log holds no \<^verbatim>\<open>RemoveAll\<close>.
\<close>

theorem fatal_exit_keeps_workdir:
  "fst (main_run demo_config no_nodes_sdk empty_world) = Fatal
   \<and> files (snd (main_run demo_config no_nodes_sdk empty_world)) largeFile
       = Some (Regular [1, 8, 15, 22, 29])
   \<and> files (snd (main_run demo_config no_nodes_sdk empty_world)) ''temp_data/part_0.bin''
       = Some (Regular [1, 8])
   \<and> log (snd (main_run demo_config no_nodes_sdk empty_world)) =
       [EvNewWeb3, EvNewClient, EvMkdirAll ''temp_data'', EvCreate largeFile,
        EvCopy largeFile ''rand.Reader'' 5, EvOpen largeFile,
        EvRead largeFile 2, EvWriteFile ''temp_data/part_0.bin'' 2,
        EvRead largeFile 2, EvWriteFile ''temp_data/part_1.bin'' 2,
        EvRead largeFile 1, EvWriteFile ''temp_data/part_2.bin'' 1,
        EvRead largeFile 0,
        EvSelectNodes [] True, EvSelectNodes [] False,
        EvSelectNodes ''random'' True, EvSelectNodes ''random'' False]"
  by (intro conjI; code_simp)

text \<open>
  On the other ways out of \<^verbatim>\<open>main\<close>, a return or a panic, nothing is left in the working
  directory.
\<close>

lemma files_os_RemoveAll: "below dir p \<Longrightarrow> files (os_RemoveAll w dir) p = None"
  by (simp add: os_RemoveAll_def)

lemma transfer_stage_cleans:
  "fst (transfer_stage s w workDir largeFileName fragments) \<noteq> Fatal \<Longrightarrow> below workDir p \<Longrightarrow>
   files (snd (transfer_stage s w workDir largeFileName fragments)) p = None"
  by (auto simp: transfer_stage_def Let_def files_os_RemoveAll
      split: prod.splits sum.splits option.splits if_splits)

lemma main_run_cleans_unless_fatal:
  "fst (main_run cfg s w0) \<noteq> Fatal \<Longrightarrow> below ''temp_data'' p \<Longrightarrow>
   files (snd (main_run cfg s w0)) p = None"
  by (auto simp: main_run_def Let_def files_os_RemoveAll transfer_stage_cleans
      split: prod.splits sum.splits option.splits if_splits)

section \<open>Upload failures\<close>

lemma downloads_append [simp]: "downloads (xs @ ys) = downloads xs @ downloads ys"
  by (induction xs rule: downloads.induct) simp_all

lemma uploaded_roots_Nil [simp]: "uploaded_roots s i [] = []"
  by (simp add: uploaded_roots_def)




















end
